theory Spec2Isabelle
  imports Main "HOL-Library.Word"
begin

unbundle bit_operations_syntax

section \<open>The arena allocator of \<open>lib/nostd/sail_arena.c\<close>\<close>

text \<open>
  The allocator keeps three file-level variables: the base address of the buffer, its
  length and the offset of the next free byte. \<open>size_t\<close> and \<open>uintptr_t\<close> are
  unsigned machine integers of the same width; they are modelled as \<open>'a word\<close>, so that
  \<open>+\<close> and \<open>-\<close> wrap around modulo \<open>2 ^ LENGTH('a)\<close> exactly as in C and \<open>\<le>\<close> is the
  unsigned comparison. A pointer is the address it holds. No function of the file tests
  the buffer pointer or the length; the model computes with whatever address and length
  \<open>sail_arena_init\<close> was given.

  The field \<open>memory\<close> stands for the bytes of the address space the buffer lives in. No
  function of the file stores to it; it is part of the state so that this can be said.
\<close>

record (overloaded) 'a arena =
  sail_arena_buffer :: "'a::len word"
  sail_arena_length :: "'a word"
  sail_arena_offset :: "'a word"
  memory :: "'a word \<Rightarrow> 8 word"

definition sail_arena_init :: "'a::len word \<Rightarrow> 'a word \<Rightarrow> 'a arena \<Rightarrow> 'a arena" where
  "sail_arena_init buffer len s =
     s\<lparr>sail_arena_buffer := buffer, sail_arena_length := len, sail_arena_offset := 0\<rparr>"

definition sail_arena_reset :: "'a::len arena \<Rightarrow> 'a arena" where
  "sail_arena_reset s = s\<lparr>sail_arena_offset := 0\<rparr>"

text \<open>
  \<open>sail_malloc_align\<close> returns a pointer or \<open>NULL\<close>. The two \<open>return\<close> statements are the
  two branches of the model: \<open>Some p\<close> is \<open>return ptr\<close> with \<open>p\<close> the address
  \<open>&sail_arena_buffer[offset]\<close>, and \<open>None\<close> is \<open>return NULL\<close>. The buffer is an array
  of \<open>unsigned char\<close>, so the address of the element is the base address plus the index.
  The local variable \<open>offset\<close> of the source is assigned three times; the model names the
  three values \<open>address\<close>, \<open>rounded\<close> and \<open>offset\<close>.
\<close>

definition sail_malloc_align ::
    "'a::len word \<Rightarrow> 'a word \<Rightarrow> 'a arena \<Rightarrow> 'a word option \<times> 'a arena" where
  "sail_malloc_align sz align s =
     (let address = sail_arena_buffer s + sail_arena_offset s;
          modulo = address AND (align - 1);
          rounded = (if modulo \<noteq> 0 then address + (align - modulo) else address);
          offset = rounded - sail_arena_buffer s
      in if offset + sz \<le> sail_arena_length s
         then (Some (sail_arena_buffer s + offset), s\<lparr>sail_arena_offset := offset + sz\<rparr>)
         else (None, s))"

text \<open>
  The value of type \<open>void *\<close> that the caller receives: \<open>NULL\<close> is the address 0. A call
  that takes the \<open>return ptr\<close> path with a pointer whose address is 0 looks to the caller
  like one that returned \<open>NULL\<close>.
\<close>

definition returned_pointer :: "'a::len word option \<Rightarrow> 'a word" where
  "returned_pointer r = (case r of None \<Rightarrow> 0 | Some p \<Rightarrow> p)"

text \<open>The default of the macro \<open>SAIL_ARENA_ALIGNMENT\<close>, used when the build does not set it.\<close>

definition SAIL_ARENA_ALIGNMENT :: "'a::len word" where
  "SAIL_ARENA_ALIGNMENT = 4"

definition sail_malloc :: "'a::len word \<Rightarrow> 'a arena \<Rightarrow> 'a word option \<times> 'a arena" where
  "sail_malloc sz s = sail_malloc_align sz SAIL_ARENA_ALIGNMENT s"

text \<open>\<open>sail_free\<close> has an empty body.\<close>

definition sail_free :: "'a::len word \<Rightarrow> 'a arena \<Rightarrow> 'a arena" where
  "sail_free ptr s = s"

section \<open>Notions of the specification\<close>

text \<open>
  An alignment is a power of two that the machine type can hold: \<open>1, 2, 4, \<dots>\<close> up to
  \<open>2 ^ (LENGTH('a) - 1)\<close>.
\<close>

definition power_of_two :: "'a::len word \<Rightarrow> bool" where
  "power_of_two a \<longleftrightarrow> (\<exists>k \<in> {0..<LENGTH('a)}. a = 2 ^ k)"

text \<open>
  The rounding step in the words of the specification: if \<open>address mod alignment\<close> is not
  zero, add \<open>alignment - (address mod alignment)\<close>; then convert the rounded address back
  to an offset relative to the buffer. Both are stated on machine words, where \<open>mod\<close> is
  the unsigned remainder. The source computes the remainder as
  \<open>address AND (align - 1)\<close> instead.
\<close>

definition spec_round_up :: "'a::len word \<Rightarrow> 'a word \<Rightarrow> 'a word" where
  "spec_round_up address alignment =
     (if address mod alignment \<noteq> 0 then address + (alignment - address mod alignment)
      else address)"

definition spec_rounded_offset :: "'a::len arena \<Rightarrow> 'a word \<Rightarrow> 'a word" where
  "spec_rounded_offset s alignment =
     spec_round_up (sail_arena_buffer s + sail_arena_offset s) alignment - sail_arena_buffer s"

text \<open>The invariant of the data model; \<open>0 \<le> offset\<close> holds of every unsigned value.\<close>

definition arena_inv :: "'a::len arena \<Rightarrow> bool" where
  "arena_inv s \<longleftrightarrow> sail_arena_offset s \<le> sail_arena_length s"

text \<open>
  A sequence of \<open>sail_malloc_align\<close> calls, each given as \<open>(size, align)\<close>, run in order
  on the state the previous call left. The result lists, for every call that returned a
  pointer, the region it handed out: its start relative to the buffer base, and its size.
\<close>

fun malloc_align_calls ::
    "('a::len word \<times> 'a word) list \<Rightarrow> 'a arena \<Rightarrow> ('a word \<times> 'a word) list" where
  "malloc_align_calls [] s = []"
| "malloc_align_calls ((sz, align) # calls) s =
     (case sail_malloc_align sz align s of
        (Some p, s') \<Rightarrow> (p - sail_arena_buffer s, sz) # malloc_align_calls calls s'
      | (None, s') \<Rightarrow> malloc_align_calls calls s')"

text \<open>The byte offsets a region \<open>[start, start + size)\<close> covers, as plain numbers.\<close>

definition region :: "'a::len word \<times> 'a word \<Rightarrow> nat set" where
  "region r = {unat (fst r) ..< unat (fst r) + unat (snd r)}"

text \<open>
  The buffer is an object of the address space: it does not start at address 0, and the
  address one past its last byte is still below \<open>2 ^ LENGTH('a)\<close>.
\<close>

definition buffer_in_address_space :: "'a::len arena \<Rightarrow> bool" where
  "buffer_in_address_space s \<longleftrightarrow>
     0 < unat (sail_arena_buffer s) \<and>
     unat (sail_arena_buffer s) + unat (sail_arena_length s) < 2 ^ LENGTH('a)"

text \<open>
  A sequence of calls in which every alignment is a power of two and every call that
  returned a pointer was for a region that ends within the buffer, as numbers: the sum of
  its start and its size did not wrap around.
\<close>

fun calls_fit :: "('a::len word \<times> 'a word) list \<Rightarrow> 'a arena \<Rightarrow> bool" where
  "calls_fit [] s = True"
| "calls_fit ((sz, align) # calls) s =
     (power_of_two align \<and>
      (case sail_malloc_align sz align s of
         (Some p, s') \<Rightarrow>
           unat (p - sail_arena_buffer s) + unat sz \<le> unat (sail_arena_length s) \<and>
           calls_fit calls s'
       | (None, s') \<Rightarrow> calls_fit calls s'))"

subsection \<open>Concrete states of a 64-bit machine\<close>

text \<open>
  \<open>blank\<close> is a state before \<open>sail_arena_init\<close>; \<open>arena16\<close> is an arena of 16 bytes at
  address \<open>0x1000\<close> of which 8 are handed out.
\<close>

definition blank :: "64 arena" where
  "blank = \<lparr>sail_arena_buffer = 0, sail_arena_length = 0, sail_arena_offset = 0,
             memory = (\<lambda>_. 0)\<rparr>"

definition arena16 :: "64 arena" where
  "arena16 = \<lparr>sail_arena_buffer = 0x1000, sail_arena_length = 16, sail_arena_offset = 8,
               memory = (\<lambda>_. 0)\<rparr>"

section \<open>Machine arithmetic\<close>

text \<open>For a power of two, masking with \<open>align - 1\<close> is the unsigned remainder.\<close>

lemma and_minus1_mod: "power_of_two a \<Longrightarrow> x AND (a - 1) = x mod a"
  by (auto simp: power_of_two_def take_bit_eq_mod simp flip: mask_eq_exp_minus_1 take_bit_eq_mask)

lemma take_bit_word_add:
  fixes a b :: "'a::len word"
  shows "take_bit n (take_bit n a + take_bit n b) = take_bit n (a + b)"
  by transfer (simp add: take_bit_add)

lemma sub_take_bit:
  fixes x :: "'a::len word"
  shows "x - take_bit k x = drop_bit k x * 2 ^ k"
proof -
  have "x - take_bit k x = push_bit k (drop_bit k x)"
    by (simp add: diff_eq_eq bits_ident)
  then show ?thesis
    by (simp add: push_bit_eq_mult)
qed

lemma round_up_dvd:
  fixes x :: "'a::len word"
  shows "2 ^ k dvd x + (2 ^ k - take_bit k x)"
proof -
  have "x + (2 ^ k - take_bit k x) = 2 ^ k + (x - take_bit k x)"
    by simp
  also have "\<dots> = 2 ^ k * (1 + drop_bit k x)"
    by (simp add: sub_take_bit algebra_simps)
  finally show ?thesis
    by simp
qed

lemma spec_round_up_aligned:
  assumes "power_of_two align"
  shows "spec_round_up x align mod align = 0"
proof -
  from assms obtain k where k: "align = 2 ^ k"
    by (auto simp: power_of_two_def)
  show ?thesis
    unfolding k spec_round_up_def
    using round_up_dvd [of k x]
    by (simp flip: take_bit_eq_mod add: take_bit_eq_0_iff)
qed

text \<open>
  When the sum of two numbers is at most a third value of the type, the machine sum is
  that sum and passes the comparison.
\<close>

lemma unat_sum_le:
  fixes a b c :: "'a::len word"
  assumes "unat a + unat b \<le> unat c"
  shows "unat (a + b) = unat a + unat b" and "a + b \<le> c"
proof -
  have "unat a + unat b < 2 ^ LENGTH('a)"
    using assms unsigned_less [of c] by (rule le_less_trans)
  then show "unat (a + b) = unat a + unat b"
    by (simp add: unat_add_lem)
  with assms show "a + b \<le> c"
    by (simp add: word_le_nat_alt)
qed

text \<open>Small numerals and the two low bits of an address, for words of any width.\<close>

lemma take_bit_small_numerals:
  assumes "4 \<le> LENGTH('a::len)"
  shows "take_bit LENGTH('a) (3 :: int) = 3" "take_bit LENGTH('a) (8 :: int) = 8"
    "take_bit LENGTH('a) (9 :: int) = 9"
proof -
  have "(2::int) ^ 4 \<le> 2 ^ LENGTH('a)"
    using assms by (rule power_increasing) simp
  then have "(16::int) \<le> 2 ^ LENGTH('a)"
    by simp
  then show "take_bit LENGTH('a) (3 :: int) = 3" "take_bit LENGTH('a) (8 :: int) = 8"
    "take_bit LENGTH('a) (9 :: int) = 9"
    by (simp_all add: take_bit_int_eq_self)
qed

lemma and_3:
  fixes x :: "'a::len word"
  shows "x AND 3 = take_bit 2 x"
proof -
  have "(3 :: 'a word) = mask 2"
    by (simp add: mask_eq_exp_minus_1)
  then show ?thesis
    by (simp add: take_bit_eq_mask)
qed

lemma low_bits_of_aligned:
  fixes B :: "'a::len word"
  assumes "B mod 4 = 0"
  shows "B AND 3 = 0" "(B + 3) AND 3 = 3" "(B + 8) AND 3 = 0"
proof -
  from assms have t: "take_bit 2 B = 0"
    by (simp add: take_bit_eq_mod)
  then show "B AND 3 = 0"
    by (simp add: and_3)
  have "take_bit 2 (B + 3) = take_bit 2 (take_bit 2 B + take_bit 2 3)"
    by (simp only: take_bit_word_add)
  also have "\<dots> = take_bit 2 3"
    by (simp add: t)
  also have "\<dots> = 3"
    by (simp flip: and_3)
  finally show "(B + 3) AND 3 = 3"
    by (simp only: and_3)
  have "take_bit 2 (B + 8) = take_bit 2 (take_bit 2 B + take_bit 2 8)"
    by (simp only: take_bit_word_add)
  also have "\<dots> = take_bit 2 8"
    by (simp add: t)
  also have "\<dots> = 0"
    by (simp add: take_bit_eq_0_iff)
  finally show "(B + 8) AND 3 = 0"
    by (simp only: and_3)
qed

lemma unat_2p: "k < LENGTH('a) \<Longrightarrow> unat (2 ^ k :: 'a::len word) = 2 ^ k"
proof -
  assume k: "k < LENGTH('a)"
  have "unat (of_nat (2 ^ k) :: 'a word) = 2 ^ k mod 2 ^ LENGTH('a)"
    by (simp only: unat_of_nat)
  with k show ?thesis
    by simp
qed

text \<open>The next multiple of \<open>m\<close> above a number that is not one, and a bound for it.\<close>

lemma next_multiple_eq:
  fixes n m :: nat
  assumes "0 < m"
  shows "n + (m - n mod m) = (n div m + 1) * m"
proof -
  have "n mod m < m"
    using assms by simp
  then have "n + (m - n mod m) = (n - n mod m) + m"
    by (simp add: mod_less_eq_dividend)
  also have "n - n mod m = n div m * m"
    by (simp add: minus_mod_eq_div_mult)
  finally show ?thesis
    by simp
qed

lemma next_multiple_le:
  fixes n :: nat
  assumes "n < 2 ^ w" and "k \<le> w"
  shows "n + (2 ^ k - n mod 2 ^ k) \<le> 2 ^ w"
proof -
  have w: "(2::nat) ^ w = 2 ^ (w - k) * 2 ^ k"
    using assms(2) by (simp flip: power_add)
  with assms(1) have "n div 2 ^ k < 2 ^ (w - k)"
    by (simp add: less_mult_imp_div_less)
  then have "n div 2 ^ k + 1 \<le> 2 ^ (w - k)"
    by simp
  then have "(n div 2 ^ k + 1) * 2 ^ k \<le> 2 ^ (w - k) * 2 ^ k"
    by (rule mult_le_mono1)
  moreover have "n + (2 ^ k - n mod 2 ^ k) = (n div 2 ^ k + 1) * 2 ^ k"
    by (rule next_multiple_eq) simp
  ultimately show ?thesis
    by (simp only: w)
qed

text \<open>
  Where the rounding does not wrap around, \<open>spec_round_up x align\<close> is the least multiple
  of \<open>align\<close> that is not below \<open>x\<close>: it is a multiple (\<open>spec_round_up_aligned\<close>) in the
  range from \<open>x\<close> to \<open>x + align - 1\<close>.
\<close>

lemma spec_round_up_bounds:
  fixes x :: "'a::len word"
  assumes "power_of_two align" and "unat x + unat align \<le> 2 ^ LENGTH('a)"
  shows "unat x \<le> unat (spec_round_up x align)"
    and "unat (spec_round_up x align) < unat x + unat align"
proof -
  from assms(1) obtain k where k: "k < LENGTH('a)" "align = 2 ^ k"
    by (auto simp: power_of_two_def)
  have ua: "unat align = 2 ^ k"
    unfolding k(2) using k(1) by (rule unat_2p)
  have "unat x \<le> unat (spec_round_up x align) \<and>
      unat (spec_round_up x align) < unat x + unat align"
  proof (cases "x mod align = 0")
    case True
    then show ?thesis
      by (simp add: spec_round_up_def ua)
  next
    case False
    define pad where "pad = align - x mod align"
    have lt: "unat x mod 2 ^ k < (2::nat) ^ k"
      by simp
    then have "x mod align \<le> align"
      by (simp add: word_le_nat_alt unat_mod ua less_imp_le)
    then have upad: "unat pad = 2 ^ k - unat x mod 2 ^ k"
      by (simp add: pad_def unat_sub unat_mod ua)
    from False have "unat (x mod align) \<noteq> 0"
      by (simp add: unat_eq_0)
    then have "0 < unat x mod 2 ^ k"
      by (simp add: unat_mod ua)
    with upad lt have "unat pad < 2 ^ k"
      by simp
    with assms(2) have "unat x + unat pad < 2 ^ LENGTH('a)"
      by (simp add: ua)
    then have "unat (x + pad) = unat x + unat pad"
      by (simp add: unat_add_lem)
    with \<open>unat pad < 2 ^ k\<close> False show ?thesis
      by (simp add: spec_round_up_def pad_def ua)
  qed
  then show "unat x \<le> unat (spec_round_up x align)"
    and "unat (spec_round_up x align) < unat x + unat align"
    by simp_all
qed

section \<open>The allocation step\<close>

text \<open>
  For a power-of-two alignment the source computes the rounding of the specification:
  \<open>sail_malloc_align\<close> tests \<open>spec_rounded_offset s align + sz \<le> sail_arena_length s\<close> in
  machine arithmetic and either hands out the region at the rounded offset or returns
  \<open>NULL\<close> and leaves the state alone.
\<close>

lemma sail_malloc_align_rounded:
  assumes "power_of_two align"
  shows "sail_malloc_align sz align s =
    (if spec_rounded_offset s align + sz \<le> sail_arena_length s
     then (Some (sail_arena_buffer s + spec_rounded_offset s align),
           s\<lparr>sail_arena_offset := spec_rounded_offset s align + sz\<rparr>)
     else (None, s))"
  by (simp add: sail_malloc_align_def Let_def spec_rounded_offset_def spec_round_up_def
      and_minus1_mod [OF assms])

text \<open>
  A request whose rounded offset plus size exceeds the length, where the sum of the two
  numbers still fits the machine type, returns \<open>NULL\<close> and leaves the state unchanged.
\<close>

lemma sail_malloc_align_no_space:
  assumes "power_of_two align"
    and "unat (sail_arena_length s) < unat (spec_rounded_offset s align) + unat sz"
    and "unat (spec_rounded_offset s align) + unat sz < 2 ^ LENGTH('a)"
  shows "sail_malloc_align sz align (s :: 'a::len arena) = (None, s)"
proof -
  from assms(3) have "unat (spec_rounded_offset s align + sz) =
      unat (spec_rounded_offset s align) + unat sz"
    by (simp add: unat_add_lem)
  with assms(2) have "\<not> spec_rounded_offset s align + sz \<le> sail_arena_length s"
    by (simp add: word_le_nat_alt)
  then show ?thesis
    by (simp add: sail_malloc_align_rounded [OF assms(1)])
qed

lemma spec_rounded_offset_1: "spec_rounded_offset s 1 = sail_arena_offset s"
  by (simp add: spec_rounded_offset_def spec_round_up_def)

text \<open>
  For a buffer that is an object of the address space, the rounded offset is not below
  the offset: rounding adds padding and never wraps around.
\<close>

lemma spec_rounded_offset_ge:
  fixes s :: "'a::len arena"
  assumes "power_of_two align" and "buffer_in_address_space s" and "arena_inv s"
  shows "unat (sail_arena_offset s) \<le> unat (spec_rounded_offset s align)"
proof (cases "(sail_arena_buffer s + sail_arena_offset s) mod align = 0")
  case True
  then show ?thesis
    by (simp add: spec_rounded_offset_def spec_round_up_def)
next
  case False
  define b where "b = sail_arena_buffer s"
  define off where "off = sail_arena_offset s"
  define x where "x = b + off"
  define pad where "pad = align - x mod align"
  from assms(1) obtain k where k: "k < LENGTH('a)" "align = 2 ^ k"
    by (auto simp: power_of_two_def)
  from assms(2,3) have space: "0 < unat b" "unat b + unat off \<le> 2 ^ LENGTH('a)"
    by (auto simp: buffer_in_address_space_def arena_inv_def word_le_nat_alt b_def off_def)
  from False have x0: "x mod align \<noteq> 0"
    by (simp add: x_def b_def off_def)
  have "unat b + unat off \<noteq> 2 ^ LENGTH('a)"
  proof
    assume "unat b + unat off = 2 ^ LENGTH('a)"
    then have "unat x = 0"
      by (simp add: x_def unat_word_ariths)
    then have "x = 0"
      by (simp add: unat_eq_0)
    with x0 show False
      by simp
  qed
  with space have ux: "unat x = unat b + unat off"
    by (simp add: x_def unat_add_lem [THEN iffD1])
  have ua: "unat align = 2 ^ k"
    unfolding k(2) using k(1) by (rule unat_2p)
  have "unat x mod 2 ^ k \<le> (2::nat) ^ k"
    by (simp add: less_imp_le)
  then have "x mod align \<le> align"
    by (simp add: word_le_nat_alt unat_mod ua)
  then have upad: "unat pad = 2 ^ k - unat x mod 2 ^ k"
    by (simp add: pad_def unat_sub unat_mod ua)
  have "unat x + unat pad \<le> 2 ^ LENGTH('a)"
    unfolding upad using unsigned_less [of x] k(1) by (intro next_multiple_le) simp_all
  with space(1) ux have "unat off + unat pad < 2 ^ LENGTH('a)"
    by simp
  then have "unat (off + pad) = unat off + unat pad"
    by (simp add: unat_add_lem)
  moreover have "spec_rounded_offset s align = off + pad"
    using x0
    by (simp add: spec_rounded_offset_def spec_round_up_def x_def pad_def b_def off_def)
  ultimately show ?thesis
    by (simp add: off_def)
qed

text \<open>
  For such a buffer the address in \<open>Some p\<close> is not 0 when the region ends within the
  buffer, so a caller can tell the pointer from \<open>NULL\<close>.
\<close>

lemma sail_malloc_align_pointer_not_null:
  fixes s :: "'a::len arena"
  assumes "buffer_in_address_space s"
    and "sail_malloc_align sz align s = (Some p, s')"
    and "unat (p - sail_arena_buffer s) + unat sz \<le> unat (sail_arena_length s)"
  shows "p \<noteq> 0"
proof -
  define ro where "ro = p - sail_arena_buffer s"
  from assms(1,3) have "0 < unat (sail_arena_buffer s)"
    and "unat (sail_arena_buffer s) + unat ro < 2 ^ LENGTH('a)"
    by (simp_all add: ro_def buffer_in_address_space_def)
  then have "unat (sail_arena_buffer s + ro) \<noteq> 0"
    by (simp add: unat_add_lem [THEN iffD1])
  then have "unat p \<noteq> 0"
    by (simp add: ro_def)
  then show ?thesis
    by auto
qed

lemma sail_malloc_align_inv:
  "arena_inv s \<Longrightarrow> arena_inv (snd (sail_malloc_align sz align s))"
  by (simp add: sail_malloc_align_def arena_inv_def Let_def)

text \<open>
  Claim C2. For a power-of-two alignment, whenever \<open>sail_malloc_align\<close> returns a pointer,
  the address it returns is a multiple of the alignment: the address, read as a number,
  leaves remainder \<open>0\<close> modulo \<open>align\<close>. This holds also when the rounding wraps around
  the address space, since a power of two divides \<open>2 ^ LENGTH('a)\<close>.
\<close>

theorem sail_malloc_align_aligned:
  assumes "power_of_two align" and "sail_malloc_align sz align s = (Some p, s')"
  shows "unat p mod unat align = 0"
proof -
  from assms have "p = spec_round_up (sail_arena_buffer s + sail_arena_offset s) align"
    by (auto simp: sail_malloc_align_rounded spec_rounded_offset_def split: if_splits)
  then have "p mod align = 0"
    by (simp add: spec_round_up_aligned [OF assms(1)])
  then have "unat (p mod align) = 0"
    by simp
  then show ?thesis
    by (simp only: unat_mod)
qed

theorem sail_malloc_align_aligned_witness:
  "power_of_two (4 :: 64 word) \<and>
   sail_malloc_align 3 4 (arena16\<lparr>sail_arena_offset := 5\<rparr>)
     = (Some 0x1008, arena16\<lparr>sail_arena_offset := 11\<rparr>) \<and>
   unat (0x1008 :: 64 word) mod unat (4 :: 64 word) = 0"
proof -
  have p: "power_of_two (4 :: 64 word)"
    unfolding power_of_two_def by (rule bexI [of _ 2]) simp_all
  have e: "sail_malloc_align 3 4 (arena16\<lparr>sail_arena_offset := 5\<rparr>)
     = (Some 0x1008, arena16\<lparr>sail_arena_offset := 11\<rparr>)"
    by (simp add: sail_malloc_align_def arena16_def Let_def)
  show ?thesis
    by (rule conjI [OF p conjI [OF e sail_malloc_align_aligned [OF p e]]])
qed

text \<open>
  Claim C3 says that a request whose rounded offset plus size exceeds the length returns
  \<open>NULL\<close> and leaves the state unchanged. The source makes the test
  \<open>offset + size <= sail_arena_length\<close> on the \<open>size_t\<close> sum, which wraps around. In
  \<open>arena16\<close> the rounded offset for alignment 1 is 8; a request for \<open>2 ^ 64 - 4\<close> bytes
  exceeds the length 16 by far, yet the sum wraps to 4, the call returns the pointer
  \<open>0x1008\<close> and moves the offset back to 4. The lemma \<open>sail_malloc_align_no_space\<close>
  above is what the code keeps of the claim: requests whose sum does not wrap.
\<close>

theorem sail_malloc_align_size_overflow:
  "spec_rounded_offset arena16 1 = 8 \<and>
   unat (sail_arena_length arena16) <
     unat (8 :: 64 word) + unat (0xFFFFFFFFFFFFFFFC :: 64 word) \<and>
   sail_malloc_align 0xFFFFFFFFFFFFFFFC 1 arena16 =
     (Some 0x1008, arena16\<lparr>sail_arena_offset := 4\<rparr>)"
  by (simp add: spec_rounded_offset_def spec_round_up_def sail_malloc_align_def arena16_def)

text \<open>
  Claim C4. Let the rounded offset be computed as the specification says (round the
  address \<open>buffer + offset\<close> up to the next multiple of \<open>align\<close>, subtract the buffer
  base). For a power-of-two alignment, if the rounded offset plus the size is at most the
  length, then \<open>sail_malloc_align\<close> returns the pointer to the rounded offset and sets the
  offset to the rounded offset plus the size. This holds with the sum and the comparison
  read as the source computes them, on \<open>size_t\<close>, and it holds with both read on numbers;
  in the second reading the new offset is the sum of the numbers. The hypothesis
  \<open>offset \<le> length\<close> of the claim is not needed.
\<close>

theorem sail_malloc_align_success:
  assumes "power_of_two align"
  shows "(spec_rounded_offset s align + sz \<le> sail_arena_length s \<longrightarrow>
            sail_malloc_align sz align s =
              (Some (sail_arena_buffer s + spec_rounded_offset s align),
               s\<lparr>sail_arena_offset := spec_rounded_offset s align + sz\<rparr>)) \<and>
         (unat (spec_rounded_offset s align) + unat sz \<le> unat (sail_arena_length s) \<longrightarrow>
            sail_malloc_align sz align s =
              (Some (sail_arena_buffer s + spec_rounded_offset s align),
               s\<lparr>sail_arena_offset := spec_rounded_offset s align + sz\<rparr>) \<and>
            unat (spec_rounded_offset s align + sz) =
              unat (spec_rounded_offset s align) + unat sz)"
proof (intro conjI impI)
  assume "spec_rounded_offset s align + sz \<le> sail_arena_length s"
  then show "sail_malloc_align sz align s =
      (Some (sail_arena_buffer s + spec_rounded_offset s align),
       s\<lparr>sail_arena_offset := spec_rounded_offset s align + sz\<rparr>)"
    by (simp add: sail_malloc_align_rounded [OF assms])
next
  assume fit: "unat (spec_rounded_offset s align) + unat sz \<le> unat (sail_arena_length s)"
  then have "spec_rounded_offset s align + sz \<le> sail_arena_length s"
    by (rule unat_sum_le)
  then show "sail_malloc_align sz align s =
      (Some (sail_arena_buffer s + spec_rounded_offset s align),
       s\<lparr>sail_arena_offset := spec_rounded_offset s align + sz\<rparr>)"
    by (simp add: sail_malloc_align_rounded [OF assms])
  from fit show "unat (spec_rounded_offset s align + sz) =
      unat (spec_rounded_offset s align) + unat sz"
    by (rule unat_sum_le)
qed

theorem sail_malloc_align_success_witness:
  "power_of_two (4 :: 64 word) \<and>
   spec_rounded_offset (arena16\<lparr>sail_arena_offset := 5\<rparr>) 4 = 8 \<and>
   (8 :: 64 word) + 3 \<le> 16 \<and>
   unat (8 :: 64 word) + unat (3 :: 64 word) \<le> unat (16 :: 64 word) \<and>
   sail_malloc_align 3 4 (arena16\<lparr>sail_arena_offset := 5\<rparr>) =
     (Some 0x1008, arena16\<lparr>sail_arena_offset := 11\<rparr>) \<and>
   unat (8 + 3 :: 64 word) = unat (8 :: 64 word) + unat (3 :: 64 word)"
proof -
  have p: "power_of_two (4 :: 64 word)"
    unfolding power_of_two_def by (rule bexI [of _ 2]) simp_all
  have r: "spec_rounded_offset (arena16\<lparr>sail_arena_offset := 5\<rparr>) 4 = 8"
    by (simp add: spec_rounded_offset_def spec_round_up_def arena16_def)
  have l: "sail_arena_length (arena16\<lparr>sail_arena_offset := 5\<rparr>) = 16"
    by (simp add: arena16_def)
  from sail_malloc_align_success [OF p, of "arena16\<lparr>sail_arena_offset := 5\<rparr>" 3] p r
  show ?thesis
    unfolding r l by (simp add: arena16_def)
qed

text \<open>
  A request of size 0 takes the \<open>return ptr\<close> path whenever the rounded offset is at most
  the length, in every state; when the arena is exactly full and the address at the
  offset is aligned, the pointer is \<open>buffer + length\<close> and the state stays as it is.
\<close>

lemma sail_malloc_align_zero_size_branch:
  assumes "power_of_two align"
  shows "(spec_rounded_offset s align \<le> sail_arena_length s \<longrightarrow>
            sail_malloc_align 0 align s =
              (Some (sail_arena_buffer s + spec_rounded_offset s align),
               s\<lparr>sail_arena_offset := spec_rounded_offset s align\<rparr>)) \<and>
         (sail_arena_offset s = sail_arena_length s \<and>
          (sail_arena_buffer s + sail_arena_offset s) mod align = 0 \<longrightarrow>
            sail_malloc_align 0 align s = (Some (sail_arena_buffer s + sail_arena_length s), s))"
proof (intro conjI impI)
  assume "spec_rounded_offset s align \<le> sail_arena_length s"
  then show "sail_malloc_align 0 align s =
      (Some (sail_arena_buffer s + spec_rounded_offset s align),
       s\<lparr>sail_arena_offset := spec_rounded_offset s align\<rparr>)"
    by (simp add: sail_malloc_align_rounded [OF assms])
next
  assume full: "sail_arena_offset s = sail_arena_length s \<and>
    (sail_arena_buffer s + sail_arena_offset s) mod align = 0"
  then have "(sail_arena_buffer s + sail_arena_offset s) mod align = 0"
    by (rule conjunct2)
  then have "spec_round_up (sail_arena_buffer s + sail_arena_offset s) align =
      sail_arena_buffer s + sail_arena_offset s"
    by (simp add: spec_round_up_def)
  with full have "spec_rounded_offset s align = sail_arena_length s"
    by (simp add: spec_rounded_offset_def)
  moreover from full have "s\<lparr>sail_arena_offset := sail_arena_length s\<rparr> = s"
    by simp
  ultimately show "sail_malloc_align 0 align s =
      (Some (sail_arena_buffer s + sail_arena_length s), s)"
    by (simp add: sail_malloc_align_rounded [OF assms])
qed

text \<open>
  The address of a position within the buffer, or one past its end, is not 0 when the
  buffer is an object of the address space.
\<close>

lemma address_in_buffer_not_null:
  fixes s :: "'a::len arena"
  assumes "buffer_in_address_space s" and "off \<le> sail_arena_length s"
  shows "sail_arena_buffer s + off \<noteq> 0"
proof -
  from assms have "0 < unat (sail_arena_buffer s)"
    and "unat (sail_arena_buffer s) + unat off < 2 ^ LENGTH('a)"
    by (simp_all add: buffer_in_address_space_def word_le_nat_alt)
  then have "unat (sail_arena_buffer s + off) \<noteq> 0"
    by (simp add: unat_add_lem [THEN iffD1])
  then show ?thesis
    by auto
qed

text \<open>
  Claim C9, amended. The claim promises a pointer that is not \<open>NULL\<close> in every state
  with \<open>offset \<le> length\<close>. No function of the file tests the buffer pointer, and in a state
  whose buffer is \<open>NULL\<close> (the state before \<open>sail_arena_init\<close>, say) the pointer handed out
  for size 0 is \<open>NULL\<close> itself. What holds: in every state whose buffer is an object of the
  address space (its base address is not 0 and the address one past its end is below
  \<open>2 ^ LENGTH('a)\<close>), for a power-of-two alignment, a request of size 0 returns a pointer
  that is not \<open>NULL\<close> whenever the rounded offset is at most the length: the pointer to the
  rounded offset, which becomes the new offset. In particular, when the arena is exactly
  full and the address at the offset is already aligned, the call returns
  \<open>buffer + length\<close>, one past the last byte of the buffer, and the state stays as it is.
\<close>

theorem sail_malloc_align_zero_size:
  assumes "power_of_two align" and "buffer_in_address_space s"
  shows "(spec_rounded_offset s align \<le> sail_arena_length s \<longrightarrow>
            sail_malloc_align 0 align s =
              (Some (sail_arena_buffer s + spec_rounded_offset s align),
               s\<lparr>sail_arena_offset := spec_rounded_offset s align\<rparr>) \<and>
            returned_pointer (fst (sail_malloc_align 0 align s)) \<noteq> 0) \<and>
         (sail_arena_offset s = sail_arena_length s \<and>
          (sail_arena_buffer s + sail_arena_offset s) mod align = 0 \<longrightarrow>
            sail_malloc_align 0 align s =
              (Some (sail_arena_buffer s + sail_arena_length s), s) \<and>
            returned_pointer (fst (sail_malloc_align 0 align s)) \<noteq> 0)"
proof (intro conjI impI)
  note branch = sail_malloc_align_zero_size_branch [OF assms(1), of s]
  {
    assume le: "spec_rounded_offset s align \<le> sail_arena_length s"
    with branch show r: "sail_malloc_align 0 align s =
        (Some (sail_arena_buffer s + spec_rounded_offset s align),
         s\<lparr>sail_arena_offset := spec_rounded_offset s align\<rparr>)"
      by blast
    from address_in_buffer_not_null [OF assms(2) le]
    show "returned_pointer (fst (sail_malloc_align 0 align s)) \<noteq> 0"
      by (simp add: r returned_pointer_def)
  }
  {
    assume full: "sail_arena_offset s = sail_arena_length s \<and>
      (sail_arena_buffer s + sail_arena_offset s) mod align = 0"
    with branch show r: "sail_malloc_align 0 align s =
        (Some (sail_arena_buffer s + sail_arena_length s), s)"
      by blast
    from address_in_buffer_not_null [OF assms(2) order_refl]
    show "returned_pointer (fst (sail_malloc_align 0 align s)) \<noteq> 0"
      by (simp add: r returned_pointer_def)
  }
qed

theorem sail_malloc_align_zero_size_witness:
  "power_of_two (4 :: 64 word) \<and>
   buffer_in_address_space (arena16\<lparr>sail_arena_offset := 5\<rparr>) \<and>
   spec_rounded_offset (arena16\<lparr>sail_arena_offset := 5\<rparr>) 4 = 8 \<and>
   sail_malloc_align 0 4 (arena16\<lparr>sail_arena_offset := 5\<rparr>) =
     (Some 0x1008, arena16\<lparr>sail_arena_offset := 8\<rparr>) \<and>
   returned_pointer (fst (sail_malloc_align 0 4 (arena16\<lparr>sail_arena_offset := 5\<rparr>))) \<noteq> 0 \<and>
   buffer_in_address_space (arena16\<lparr>sail_arena_offset := 16\<rparr>) \<and>
   sail_arena_offset (arena16\<lparr>sail_arena_offset := 16\<rparr>) =
     sail_arena_length (arena16\<lparr>sail_arena_offset := 16\<rparr>) \<and>
   sail_malloc_align 0 4 (arena16\<lparr>sail_arena_offset := 16\<rparr>) =
     (Some 0x1010, arena16\<lparr>sail_arena_offset := 16\<rparr>) \<and>
   returned_pointer (fst (sail_malloc_align 0 4 (arena16\<lparr>sail_arena_offset := 16\<rparr>))) \<noteq> 0"
proof -
  have p: "power_of_two (4 :: 64 word)"
    unfolding power_of_two_def by (rule bexI [of _ 2]) simp_all
  have b5: "buffer_in_address_space (arena16\<lparr>sail_arena_offset := 5\<rparr>)"
    and b16: "buffer_in_address_space (arena16\<lparr>sail_arena_offset := 16\<rparr>)"
    by (simp_all add: buffer_in_address_space_def arena16_def)
  have r: "spec_rounded_offset (arena16\<lparr>sail_arena_offset := 5\<rparr>) 4 = 8"
    by (simp add: spec_rounded_offset_def spec_round_up_def arena16_def)
  have h5: "spec_rounded_offset (arena16\<lparr>sail_arena_offset := 5\<rparr>) 4 \<le>
      sail_arena_length (arena16\<lparr>sail_arena_offset := 5\<rparr>)"
    unfolding r by (simp add: arena16_def)
  have h16: "sail_arena_offset (arena16\<lparr>sail_arena_offset := 16\<rparr>) =
        sail_arena_length (arena16\<lparr>sail_arena_offset := 16\<rparr>) \<and>
      (sail_arena_buffer (arena16\<lparr>sail_arena_offset := 16\<rparr>) +
        sail_arena_offset (arena16\<lparr>sail_arena_offset := 16\<rparr>)) mod 4 = 0"
    by (simp add: arena16_def)
  note t5 = sail_malloc_align_zero_size [OF p b5, THEN conjunct1, rule_format, OF h5]
  note t16 = sail_malloc_align_zero_size [OF p b16, THEN conjunct2, rule_format, OF h16]
  from t5 [THEN conjunct1]
  have e5: "sail_malloc_align 0 4 (arena16\<lparr>sail_arena_offset := 5\<rparr>) =
      (Some 0x1008, arena16\<lparr>sail_arena_offset := 8\<rparr>)"
    unfolding r by (simp add: arena16_def)
  from t16 [THEN conjunct1]
  have e16: "sail_malloc_align 0 4 (arena16\<lparr>sail_arena_offset := 16\<rparr>) =
      (Some 0x1010, arena16\<lparr>sail_arena_offset := 16\<rparr>)"
    by (simp add: arena16_def)
  show ?thesis
    by (intro conjI p b5 r e5 t5 [THEN conjunct2] b16 h16 [THEN conjunct1] e16
        t16 [THEN conjunct2])
qed

text \<open>
  The claim as stated fails in the state before \<open>sail_arena_init\<close>, where the three
  variables are 0: the offset is at most the length, the rounded offset for alignment 4
  is 0 and so at most the length, and the pointer the call returns is \<open>NULL\<close>.
\<close>

theorem sail_malloc_align_zero_size_null_buffer:
  "power_of_two (4 :: 64 word) \<and>
   arena_inv blank \<and>
   spec_rounded_offset blank 4 \<le> sail_arena_length blank \<and>
   sail_malloc_align 0 4 blank = (Some 0, blank) \<and>
   returned_pointer (fst (sail_malloc_align 0 4 blank)) = 0"
proof -
  have "power_of_two (4 :: 64 word)"
    unfolding power_of_two_def by (rule bexI [of _ 2]) simp_all
  then show ?thesis
    by (simp add: arena_inv_def spec_rounded_offset_def spec_round_up_def
        sail_malloc_align_def returned_pointer_def blank_def)
qed

text \<open>
  With alignment 1 the rounding step is the identity: the rounded offset is the offset.
  When \<open>sail_malloc_align sz 1\<close> returns a pointer, it points to the current offset, and
  the new offset is the \<open>size_t\<close> sum of the old offset and the size; nothing else
  changes. When the region ends within the buffer, that sum is the sum of the numbers.
\<close>

lemma sail_malloc_align_1_word:
  assumes "sail_malloc_align sz 1 s = (Some p, s')"
  shows "spec_rounded_offset s 1 = sail_arena_offset s \<and>
         p = sail_arena_buffer s + sail_arena_offset s \<and>
         s' = s\<lparr>sail_arena_offset := sail_arena_offset s + sz\<rparr>"
  using assms
  by (auto simp: sail_malloc_align_def Let_def spec_rounded_offset_1 split: if_splits)

lemma sail_malloc_align_1_no_wrap:
  assumes "sail_malloc_align sz 1 s = (Some p, s')"
    and "unat (sail_arena_offset s) + unat sz \<le> unat (sail_arena_length s)"
  shows "unat (sail_arena_offset s') = unat (sail_arena_offset s) + unat sz"
  using sail_malloc_align_1_word [OF assms(1)] unat_sum_le(1) [OF assms(2)] by simp

text \<open>
  Claim C10 says that \<open>sail_malloc_align sz 1\<close>, when it returns a pointer, hands out the
  region at the current offset and leaves the new offset at the old offset plus the size.
  The first part holds (\<open>sail_malloc_align_1_word\<close>). The second fails where the test
  \<open>offset + size <= sail_arena_length\<close> of the source lets a wrapped sum pass: in
  \<open>arena16\<close>, where the offset 8 is at most the length 16, the request for \<open>2 ^ 64 - 4\<close>
  bytes returns the pointer \<open>0x1008\<close> to the current offset, and the new offset is 4,
  below the old one, while the old offset plus the size is \<open>2 ^ 64 + 4\<close>.
\<close>

theorem sail_malloc_align_1_offset_wraps:
  "arena_inv arena16 \<and>
   sail_malloc_align 0xFFFFFFFFFFFFFFFC 1 arena16 =
     (Some (sail_arena_buffer arena16 + sail_arena_offset arena16),
      arena16\<lparr>sail_arena_offset := 4\<rparr>) \<and>
   unat (sail_arena_offset (snd (sail_malloc_align 0xFFFFFFFFFFFFFFFC 1 arena16))) = 4 \<and>
   unat (sail_arena_offset arena16) + unat (0xFFFFFFFFFFFFFFFC :: 64 word) =
     18446744073709551620"
  by (simp add: arena_inv_def sail_malloc_align_def arena16_def)

section \<open>The invariant, reset and the default alignment\<close>

text \<open>
  Claim C5. The invariant \<open>offset \<le> length\<close> holds after \<open>sail_arena_init\<close> and is
  preserved by \<open>sail_malloc_align\<close>, \<open>sail_malloc\<close>, \<open>sail_arena_reset\<close> and \<open>sail_free\<close>,
  for every size and every alignment, in the machine arithmetic of the source: the new
  offset is the very value the source has just compared with the length.
\<close>

theorem offset_le_length_invariant:
  "arena_inv (sail_arena_init buffer len s0) \<and>
   (arena_inv s \<longrightarrow>
      arena_inv (snd (sail_malloc_align sz align s)) \<and>
      arena_inv (snd (sail_malloc sz' s)) \<and>
      arena_inv (sail_arena_reset s) \<and>
      arena_inv (sail_free ptr s))"
proof -
  have "arena_inv (sail_arena_init buffer len s0)"
    by (simp add: sail_arena_init_def arena_inv_def)
  moreover have "arena_inv (sail_arena_reset s)"
    by (simp add: sail_arena_reset_def arena_inv_def)
  moreover have "arena_inv (snd (sail_malloc sz' s))" if "arena_inv s"
    unfolding sail_malloc_def using that by (rule sail_malloc_align_inv)
  ultimately show ?thesis
    by (simp add: sail_malloc_align_inv sail_free_def)
qed

theorem offset_le_length_invariant_witness:
  "arena_inv (sail_arena_init 0x1000 16 blank) \<and>
   arena_inv arena16 \<and>
   arena_inv (snd (sail_malloc_align 0xFFFFFFFFFFFFFFFC 1 arena16)) \<and>
   arena_inv (snd (sail_malloc 0xFFFFFFFFFFFFFFFC arena16)) \<and>
   arena_inv (sail_arena_reset arena16) \<and>
   arena_inv (sail_free 0x1000 arena16)"
proof -
  have i: "arena_inv arena16"
    by (simp add: arena_inv_def arena16_def)
  from offset_le_length_invariant [where buffer = "0x1000" and len = 16 and ?s0.0 = blank
      and s = arena16 and sz = "0xFFFFFFFFFFFFFFFC" and align = 1
      and sz' = "0xFFFFFFFFFFFFFFFC" and ptr = "0x1000"] i
  show ?thesis
    by simp
qed

text \<open>
  Claim C6. \<open>sail_arena_reset\<close> sets the offset to 0 and changes nothing else: the buffer
  pointer, the length and the bytes of memory are as before.
\<close>

theorem sail_arena_reset_frame:
  "sail_arena_offset (sail_arena_reset s) = 0 \<and>
   sail_arena_buffer (sail_arena_reset s) = sail_arena_buffer s \<and>
   sail_arena_length (sail_arena_reset s) = sail_arena_length s \<and>
   memory (sail_arena_reset s) = memory s"
  by (simp add: sail_arena_reset_def)

text \<open>
  Claim C7. \<open>sail_malloc sz\<close> returns what \<open>sail_malloc_align sz D\<close> returns and leaves the
  same state, where \<open>D\<close> is \<open>SAIL_ARENA_ALIGNMENT\<close>, which is 4 unless the build sets it.
\<close>

theorem sail_malloc_default_alignment:
  "sail_malloc sz s = sail_malloc_align sz SAIL_ARENA_ALIGNMENT s \<and>
   sail_malloc sz s = sail_malloc_align sz 4 s"
  by (simp add: sail_malloc_def SAIL_ARENA_ALIGNMENT_def)

section \<open>Sequences of calls\<close>

text \<open>
  Claim C8. An arena of 8 bytes at an address \<open>B\<close> that is a multiple of 4 (on a machine
  whose words have at least 4 bits, so that 8 and 9 are different numbers):
  \<open>sail_malloc_align 3 4\<close> returns \<open>B\<close> and sets the offset to 3; then
  \<open>sail_malloc_align 4 4\<close> rounds the offset 3 up to 4, returns \<open>B + 4\<close> and sets the
  offset to 8; then \<open>sail_malloc 1\<close> returns \<open>NULL\<close> and the offset stays 8; after
  \<open>sail_arena_reset\<close>, \<open>sail_malloc_align 3 4\<close> returns \<open>B\<close> again.
\<close>

theorem scenario_eight_bytes:
  fixes B :: "'a::len word"
  assumes "4 \<le> LENGTH('a)" and "B mod 4 = 0"
  shows "sail_malloc_align 3 4 (sail_arena_init B 8 s) =
           (Some B, (sail_arena_init B 8 s)\<lparr>sail_arena_offset := 3\<rparr>) \<and>
         spec_rounded_offset ((sail_arena_init B 8 s)\<lparr>sail_arena_offset := 3\<rparr>) 4 = 4 \<and>
         sail_malloc_align 4 4 ((sail_arena_init B 8 s)\<lparr>sail_arena_offset := 3\<rparr>) =
           (Some (B + 4), (sail_arena_init B 8 s)\<lparr>sail_arena_offset := 8\<rparr>) \<and>
         sail_malloc 1 ((sail_arena_init B 8 s)\<lparr>sail_arena_offset := 8\<rparr>) =
           (None, (sail_arena_init B 8 s)\<lparr>sail_arena_offset := 8\<rparr>) \<and>
         sail_malloc_align 3 4
             (sail_arena_reset ((sail_arena_init B 8 s)\<lparr>sail_arena_offset := 8\<rparr>)) =
           (Some B, (sail_arena_init B 8 s)\<lparr>sail_arena_offset := 3\<rparr>)"
proof -
  note n = take_bit_small_numerals [OF assms(1)]
  note l = low_bits_of_aligned [OF assms(2)]
  have first: "sail_malloc_align 3 4 (sail_arena_init B 8 s) =
           (Some B, (sail_arena_init B 8 s)\<lparr>sail_arena_offset := 3\<rparr>)"
    by (simp add: sail_malloc_align_def sail_arena_init_def Let_def l n)
  have four: "power_of_two (4 :: 'a word)"
    unfolding power_of_two_def using assms(1) by (intro bexI [of _ 2]) simp_all
  have pad: "spec_rounded_offset ((sail_arena_init B 8 s)\<lparr>sail_arena_offset := 3\<rparr>) 4 = 4"
    by (simp add: spec_rounded_offset_def spec_round_up_def sail_arena_init_def l n
        flip: and_minus1_mod [OF four])
  have second: "sail_malloc_align 4 4 ((sail_arena_init B 8 s)\<lparr>sail_arena_offset := 3\<rparr>) =
           (Some (B + 4), (sail_arena_init B 8 s)\<lparr>sail_arena_offset := 8\<rparr>)"
    by (simp add: sail_malloc_align_def sail_arena_init_def Let_def l n)
  have third: "sail_malloc 1 ((sail_arena_init B 8 s)\<lparr>sail_arena_offset := 8\<rparr>) =
           (None, (sail_arena_init B 8 s)\<lparr>sail_arena_offset := 8\<rparr>)"
    by (simp add: sail_malloc_def SAIL_ARENA_ALIGNMENT_def sail_malloc_align_def
        sail_arena_init_def Let_def l n)
  have again: "sail_malloc_align 3 4
             (sail_arena_reset ((sail_arena_init B 8 s)\<lparr>sail_arena_offset := 8\<rparr>)) =
           (Some B, (sail_arena_init B 8 s)\<lparr>sail_arena_offset := 3\<rparr>)"
    by (simp add: sail_malloc_align_def sail_arena_init_def sail_arena_reset_def Let_def l n)
  from first pad second third again show ?thesis
    by (intro conjI)
qed

theorem scenario_eight_bytes_witness:
  "4 \<le> LENGTH(64) \<and> (0x1000 :: 64 word) mod 4 = 0 \<and>
   sail_malloc_align 3 4 (sail_arena_init 0x1000 8 blank) =
     (Some 0x1000, (sail_arena_init 0x1000 8 blank)\<lparr>sail_arena_offset := 3\<rparr>) \<and>
   spec_rounded_offset ((sail_arena_init 0x1000 8 blank)\<lparr>sail_arena_offset := 3\<rparr>) 4 = 4 \<and>
   sail_malloc_align 4 4 ((sail_arena_init 0x1000 8 blank)\<lparr>sail_arena_offset := 3\<rparr>) =
     (Some 0x1004, (sail_arena_init 0x1000 8 blank)\<lparr>sail_arena_offset := 8\<rparr>) \<and>
   sail_malloc 1 ((sail_arena_init 0x1000 8 blank)\<lparr>sail_arena_offset := 8\<rparr>) =
     (None, (sail_arena_init 0x1000 8 blank)\<lparr>sail_arena_offset := 8\<rparr>) \<and>
   sail_malloc_align 3 4
       (sail_arena_reset ((sail_arena_init 0x1000 8 blank)\<lparr>sail_arena_offset := 8\<rparr>)) =
     (Some 0x1000, (sail_arena_init 0x1000 8 blank)\<lparr>sail_arena_offset := 3\<rparr>)"
proof -
  have w: "4 \<le> LENGTH(64)"
    by simp
  have a: "(0x1000 :: 64 word) mod 4 = 0"
    by simp
  from scenario_eight_bytes [OF w a, of blank] show ?thesis
    by simp
qed

text \<open>
  Where the buffer is an object of the address space and no sum of a start and a size
  wraps around, the regions are handed out in increasing order, each after the end of the
  one before and all before the end of the buffer. So they are pairwise disjoint and lie
  within \<open>[0, length)\<close>.
\<close>

lemma malloc_align_calls_ordered:
  assumes "buffer_in_address_space s" and "arena_inv s" and "calls_fit calls s"
  shows "(\<forall>r \<in> set (malloc_align_calls calls s).
            unat (sail_arena_offset s) \<le> unat (fst r) \<and>
            unat (fst r) + unat (snd r) \<le> unat (sail_arena_length s)) \<and>
         sorted_wrt (\<lambda>r q. unat (fst r) + unat (snd r) \<le> unat (fst q))
           (malloc_align_calls calls s)"
  using assms
proof (induction calls arbitrary: s)
  case Nil
  then show ?case
    by simp
next
  case (Cons c calls)
  obtain sz align where c: "c = (sz, align)"
    by (cases c)
  define ro where "ro = spec_rounded_offset s align"
  from Cons.prems(3) have p2: "power_of_two align"
    by (simp add: c)
  note step = sail_malloc_align_rounded [OF p2, of sz s, folded ro_def]
  show ?case
  proof (cases "ro + sz \<le> sail_arena_length s")
    case False
    with Cons.prems Cons.IH [of s] show ?thesis
      by (simp add: c step)
  next
    case True
    define s' where "s' = s\<lparr>sail_arena_offset := ro + sz\<rparr>"
    from True Cons.prems(3) have fit: "unat ro + unat sz \<le> unat (sail_arena_length s)"
      and rest: "calls_fit calls s'"
      by (simp_all add: c step s'_def)
    have sum: "unat (ro + sz) = unat ro + unat sz"
      using fit by (rule unat_sum_le)
    have ge: "unat (sail_arena_offset s) \<le> unat ro"
      unfolding ro_def using p2 Cons.prems(1,2) by (rule spec_rounded_offset_ge)
    have "buffer_in_address_space s'" "arena_inv s'"
      using Cons.prems(1) True
      by (simp_all add: s'_def buffer_in_address_space_def arena_inv_def)
    from Cons.IH [OF this rest]
    have later: "\<forall>r \<in> set (malloc_align_calls calls s').
            unat ro + unat sz \<le> unat (fst r) \<and>
            unat (fst r) + unat (snd r) \<le> unat (sail_arena_length s)"
      and sorted: "sorted_wrt (\<lambda>r q. unat (fst r) + unat (snd r) \<le> unat (fst q))
           (malloc_align_calls calls s')"
      by (simp_all add: s'_def sum)
    have calls: "malloc_align_calls (c # calls) s = (ro, sz) # malloc_align_calls calls s'"
      using True by (simp add: c step s'_def)
    from later ge fit sorted show ?thesis
      unfolding calls by auto
  qed
qed

lemma malloc_align_calls_disjoint:
  assumes "buffer_in_address_space s" and "arena_inv s" and "calls_fit calls s"
  shows "(\<forall>r \<in> set (malloc_align_calls calls s).
            region r \<subseteq> {0 ..< unat (sail_arena_length s)}) \<and>
         sorted_wrt (\<lambda>r q. region r \<inter> region q = {}) (malloc_align_calls calls s)"
proof -
  note o = malloc_align_calls_ordered [OF assms]
  from o have "\<forall>r \<in> set (malloc_align_calls calls s).
      region r \<subseteq> {0 ..< unat (sail_arena_length s)}"
    by (auto simp: region_def)
  moreover have "region r \<inter> region q = {}"
    if "unat (fst r) + unat (snd r) \<le> unat (fst q)" for r q :: "'a word \<times> 'a word"
    using that by (auto simp: region_def)
  with o [THEN conjunct2]
  have "sorted_wrt (\<lambda>r q. region r \<inter> region q = {}) (malloc_align_calls calls s)"
    by (rule sorted_wrt_mono_rel [rotated])
  ultimately show ?thesis
    by simp
qed

text \<open>The same for the calls that follow \<open>sail_arena_init\<close>.\<close>

lemma malloc_align_calls_after_init:
  assumes "0 < unat buffer" and "unat buffer + unat len < 2 ^ LENGTH('a)"
    and "calls_fit calls (sail_arena_init buffer len s0)"
  shows "(\<forall>r \<in> set (malloc_align_calls calls (sail_arena_init buffer len s0)).
            region r \<subseteq> {0 ..< unat (len :: 'a::len word)}) \<and>
         sorted_wrt (\<lambda>r q. region r \<inter> region q = {})
           (malloc_align_calls calls (sail_arena_init buffer len s0))"
proof -
  have "buffer_in_address_space (sail_arena_init buffer len s0)"
    using assms(1,2) by (simp add: buffer_in_address_space_def sail_arena_init_def)
  moreover have "arena_inv (sail_arena_init buffer len s0)"
    by (simp add: arena_inv_def sail_arena_init_def)
  ultimately have "(\<forall>r \<in> set (malloc_align_calls calls (sail_arena_init buffer len s0)).
      region r \<subseteq> {0 ..< unat (sail_arena_length (sail_arena_init buffer len s0))}) \<and>
    sorted_wrt (\<lambda>r q. region r \<inter> region q = {})
      (malloc_align_calls calls (sail_arena_init buffer len s0))"
    using assms(3) by (rule malloc_align_calls_disjoint)
  then show ?thesis
    by (simp add: sail_arena_init_def)
qed

text \<open>
  Claim C1 says that the regions handed out by successive calls that return a pointer are
  pairwise disjoint and lie within \<open>[0, length)\<close>. The test
  \<open>offset + size <= sail_arena_length\<close> of the source is made on the \<open>size_t\<close> sum and lets a
  size pass whose sum with the offset wraps around. On an arena of 16 bytes at \<open>0x1000\<close>
  the calls with sizes 8, \<open>2 ^ 64 - 4\<close> and 8 (alignment 1) all return a pointer; the
  regions start at the offsets 0, 8 and 4. The second region reaches beyond the buffer
  (it covers the offset 16), and the third overlaps the first (both cover the offset 4).
  The lemma \<open>malloc_align_calls_after_init\<close> above is what the code keeps of the claim:
  sequences in which no such sum wraps.
\<close>

theorem malloc_align_calls_overlap:
  "malloc_align_calls [(8, 1), (0xFFFFFFFFFFFFFFFC, 1), (8, 1)]
       (sail_arena_init 0x1000 16 blank)
     = [(0, 8), (8, 0xFFFFFFFFFFFFFFFC), (4, 8)] \<and>
   4 \<in> region (0 :: 64 word, 8 :: 64 word) \<inter> region (4 :: 64 word, 8 :: 64 word) \<and>
   16 \<in> region (8 :: 64 word, 0xFFFFFFFFFFFFFFFC :: 64 word)"
  by (simp add: sail_malloc_align_def sail_arena_init_def blank_def region_def)

end
